theory Spec2Isabelle
  imports Complex_Main "HOL-Library.Word"
begin

section \<open>Configuration constants of \<open>system_audio_recorder.py\<close>\<close>

type_synonym byte = "8 word"

definition SAMPLE_RATE :: nat where "SAMPLE_RATE = 44100"
definition CHANNELS :: nat where "CHANNELS = 2"
definition BLOCK :: nat where "BLOCK = 2048"

definition START_RMS :: real where "START_RMS = 0.03"
definition SILENCE_RMS :: real where "SILENCE_RMS = 0.006"
definition SILENCE_TIME :: real where "SILENCE_TIME = 20.0"

definition SAVE_DIR :: string where "SAVE_DIR = ''songs''"

text \<open>
  \<open>deque(maxlen=int(SILENCE_TIME * SAMPLE_RATE / BLOCK) + 2)\<close>: \<open>int\<close> truncates, and the
  quotient is positive, so truncation is the floor.
\<close>

definition TAIL_MAXLEN :: nat where
  "TAIL_MAXLEN = nat \<lfloor>SILENCE_TIME * real SAMPLE_RATE / real BLOCK\<rfloor> + 2"

section \<open>Data\<close>

text \<open>
  A wave file as the \<open>wave\<close> module sees it: the three header parameters the program sets
  and the bytes of sample data. The program only ever writes whole blocks of
  \<open>BLOCK\<close> frames, so \<open>readframes(getnframes())\<close> returns all of \<open>frames\<close>.
\<close>

record wav =
  nchannels :: nat
  sampwidth :: nat
  framerate :: nat
  frames :: "byte list"

text \<open>
  One block as the loop handles it. \<open>level\<close> is \<open>rms(data)\<close> and \<open>pcm\<close> is the byte string
  \<open>(clip(data) * 32767).astype(int16).tobytes()\<close>; both are floating-point computations on
  the captured samples and are taken here as given, the level as a real number.
\<close>

record block =
  level :: real
  pcm :: "byte list"

text \<open>
  What the surroundings answer during one loop iteration or one button press:
  \<open>now\<close> is \<open>time.time()\<close>, \<open>stamp\<close> is \<open>time.strftime('%Y%m%d_%H%M%S')\<close>, and the three
  flags say whether opening the temporary file, writing a block to it, and closing,
  reading back and writing the output file succeed.
\<close>

record env =
  now :: real
  stamp :: string
  open_ok :: bool
  write_ok :: bool
  save_ok :: bool

text \<open>
  The fields of \<open>RecorderGUI\<close> that the recording logic reads or writes. \<open>temp_wav\<close> holds
  the contents written so far to \<open>temp/current.wav\<close>; \<open>songs\<close> is the list of files
  written to the save directory since the object was created, oldest first. \<open>readers\<close>
  counts the loop threads that \<open>toggle\<close> has started and that have passed the test
  \<open>while self.running\<close> and wait in \<open>rec.record(BLOCK)\<close> for their next block.
\<close>

record state =
  running :: bool
  song_index :: int
  recording :: bool
  has_started_song :: bool
  silence_start :: "real option"
  start_time :: "real option"
  temp_wav :: "wav option"
  tail_buffer :: "byte list list"
  songs :: "(string \<times> wav) list"
  readers :: nat

datatype error = StorageError | AttributeError | TypeError

text \<open>
  A call either returns with the object in a new state, or an exception escapes it; the
  object keeps whatever the call had assigned before the exception.
\<close>

datatype result = Ok state | Raise error state

fun bind :: "result \<Rightarrow> (state \<Rightarrow> result) \<Rightarrow> result" where
  "bind (Ok s) f = f s"
| "bind (Raise e s) f = Raise e s"

section \<open>Python primitives\<close>

text \<open>\<open>xs[:j]\<close> for any integer \<open>j\<close>: a negative \<open>j\<close> counts from the end, and \<open>-0\<close> is \<open>0\<close>.\<close>

definition py_slice_to :: "int \<Rightarrow> 'a list \<Rightarrow> 'a list" where
  "py_slice_to j xs =
     (if j < 0 then take (nat (int (length xs) + j)) xs else take (nat j) xs)"

text \<open>\<open>deque.append\<close> on a deque with \<open>maxlen\<close>: when full, the oldest entry is dropped.\<close>

definition deque_append :: "nat \<Rightarrow> 'a list \<Rightarrow> 'a \<Rightarrow> 'a list" where
  "deque_append maxlen d x =
     (if length d = maxlen then (if maxlen = 0 then [] else tl d @ [x]) else d @ [x])"

text \<open>The decimal digits of a natural number, as \<open>str\<close> prints them.\<close>

definition digit_char :: "nat \<Rightarrow> char" where
  "digit_char d = ''0123456789'' ! d"

fun digits :: "nat \<Rightarrow> string" where
  "digits n = (if n < 10 then [digit_char n] else digits (n div 10) @ [digit_char (n mod 10)])"

declare digits.simps [simp del]

text \<open>
  \<open>f"{n:03d}"\<close>: sign-aware zero padding to a minimum width of three characters.
\<close>

definition fmt_03d :: "int \<Rightarrow> string" where
  "fmt_03d n =
     (let ds = digits (nat \<bar>n\<bar>);
          sign = (if n < 0 then ''-'' else [])
      in sign @ replicate (3 - length sign - length ds) CHR ''0'' @ ds)"

definition save_path :: "int \<Rightarrow> string \<Rightarrow> string" where
  "save_path idx st = SAVE_DIR @ ''/song_'' @ fmt_03d idx @ ''_'' @ st @ ''.wav''"

section \<open>The methods of \<open>RecorderGUI\<close>\<close>

text \<open>\<open>__init__\<close>: nothing runs, the counter is 1, no segment is open.\<close>

definition init_state :: state where
  "init_state =
     \<lparr>running = False, song_index = 1, recording = False, has_started_song = False,
      silence_start = None, start_time = None, temp_wav = None, tail_buffer = [],
      songs = [], readers = 0\<rparr>"

text \<open>
  \<open>_reset_state\<close> leaves \<open>running\<close>, the counter, the saved files and the threads alone.
\<close>

definition reset_state :: "state \<Rightarrow> state" where
  "reset_state s =
     s\<lparr>recording := False, has_started_song := False, silence_start := None,
       start_time := None, tail_buffer := [], temp_wav := None\<rparr>"

text \<open>
  \<open>_start_new_song\<close> sets the flags and clears the tail buffer before it opens the
  temporary file for writing, which truncates it; if opening fails, those assignments
  stay and \<open>temp_wav\<close> keeps its old value.
\<close>

definition start_new_song :: "env \<Rightarrow> state \<Rightarrow> result" where
  "start_new_song e s =
     (let s1 = s\<lparr>recording := True, has_started_song := True, silence_start := None,
                 start_time := Some (now e), tail_buffer := []\<rparr>
      in if open_ok e
         then Ok (s1\<lparr>temp_wav := Some \<lparr>nchannels = CHANNELS, sampwidth = 2,
                                       framerate = SAMPLE_RATE, frames = []\<rparr>\<rparr>)
         else Raise StorageError s1)"

text \<open>
  \<open>_write_block\<close> calls \<open>self.temp_wav.writeframes\<close>, which raises \<open>AttributeError\<close> when
  \<open>temp_wav\<close> is \<open>None\<close>, and then appends the block to the tail buffer. When the write
  fails the append is not reached; what a failed write leaves in the file is not known
  and the model keeps the old contents.
\<close>

definition write_block :: "env \<Rightarrow> block \<Rightarrow> state \<Rightarrow> result" where
  "write_block e b s =
     (case temp_wav s of
        None \<Rightarrow> Raise AttributeError s
      | Some w \<Rightarrow>
          if write_ok e
          then Ok (s\<lparr>temp_wav := Some (w\<lparr>frames := frames w @ pcm b\<rparr>),
                     tail_buffer := deque_append TAIL_MAXLEN (tail_buffer s) (pcm b)\<rparr>)
          else Raise StorageError s)"

text \<open>
  \<open>_trim_and_save\<close> reads the temporary file back, computes \<open>trim_bytes\<close> from the number
  of blocks in the tail buffer, and writes \<open>frames[:-trim_bytes]\<close> or all of \<open>frames\<close> to a
  new file with the same three header parameters.
\<close>

definition trim_bytes :: "state \<Rightarrow> nat" where
  "trim_bytes s = length (tail_buffer s) * BLOCK * CHANNELS * 2"

definition trim_and_save :: "state \<Rightarrow> wav \<Rightarrow> wav" where
  "trim_and_save s src =
     (let fr = frames src;
          final_data = (if trim_bytes s < length fr
                        then py_slice_to (- int (trim_bytes s)) fr else fr)
      in \<lparr>nchannels = CHANNELS, sampwidth = 2, framerate = SAMPLE_RATE,
          frames = final_data\<rparr>)"

text \<open>
  \<open>_finalize_and_save\<close>. Without an open temporary file it only resets. Otherwise it
  closes the file, saves the trimmed copy under the current counter, computes the
  duration \<open>time.time() - self.start_time\<close> for the message it prints, increments the
  counter and resets. If closing, reading or writing raises, the counter and the state
  are as before; what is then on disk at the output path is outside the model. The
  subtraction raises \<open>TypeError\<close> when \<open>start_time\<close> is \<open>None\<close>, after the file was saved.
\<close>

definition finalize_and_save :: "env \<Rightarrow> state \<Rightarrow> result" where
  "finalize_and_save e s =
     (case temp_wav s of
        None \<Rightarrow> Ok (reset_state s)
      | Some w \<Rightarrow>
          if save_ok e
          then (let s1 = s\<lparr>songs := songs s @
                             [(save_path (song_index s) (stamp e), trim_and_save s w)]\<rparr>
                in case start_time s1 of
                     None \<Rightarrow> Raise TypeError s1
                   | Some t \<Rightarrow> Ok (reset_state (s1\<lparr>song_index := song_index s + 1\<rparr>)))
          else Raise StorageError s)"

definition finalize_if_needed :: "env \<Rightarrow> state \<Rightarrow> result" where
  "finalize_if_needed e s = (if has_started_song s then finalize_and_save e s else Ok s)"

text \<open>
  \<open>toggle\<close>, the button. When nothing runs it resets, sets \<open>running\<close> and starts a loop
  thread, which passes the test of \<open>running\<close> and waits for its first block. Otherwise
  it clears \<open>running\<close> and finalizes an open segment; a thread that waits for a block
  goes on waiting.
\<close>

definition toggle :: "env \<Rightarrow> state \<Rightarrow> result" where
  "toggle e s =
     (if \<not> running s then Ok ((reset_state s)\<lparr>running := True, readers := readers s + 1\<rparr>)
      else finalize_if_needed e (s\<lparr>running := False\<rparr>))"

text \<open>The body of the \<open>while self.running\<close> loop for one block.\<close>

definition record_iter :: "env \<Rightarrow> block \<Rightarrow> state \<Rightarrow> result" where
  "record_iter e b s =
     (if START_RMS \<le> level b then
        bind (bind (if \<not> recording s then start_new_song e s else Ok s) (write_block e b))
             (\<lambda>s2. Ok (s2\<lparr>silence_start := None\<rparr>))
      else if \<not> has_started_song s then Ok s
      else
        bind (write_block e b s)
          (\<lambda>s1. if level b < SILENCE_RMS then
                   (case silence_start s1 of
                      None \<Rightarrow> Ok (s1\<lparr>silence_start := Some (now e)\<rparr>)
                    | Some t0 \<Rightarrow>
                        if SILENCE_TIME \<le> now e - t0 then finalize_and_save e s1 else Ok s1)
                 else Ok (s1\<lparr>silence_start := None\<rparr>)))"

text \<open>
  \<open>record_loop\<close> on a finite prefix of the block stream. The loop leaves when \<open>running\<close> is
  cleared, and an exception in the body ends it.
\<close>

fun record_loop :: "(env \<times> block) list \<Rightarrow> state \<Rightarrow> result" where
  "record_loop [] s = Ok s"
| "record_loop ((e, b) # rest) s =
     (if running s then bind (record_iter e b s) (record_loop rest) else Ok s)"

text \<open>
  The button runs on the interface thread and the loop on a thread of its own, both on
  the same object. The model puts them in one sequence: an execution is a list of
  events, each either one press of the button or one block handled by a loop thread.
  The loop tests \<open>running\<close> before it waits for a block and not after: a thread that
  waits handles the block it gets, also when the button has cleared \<open>running\<close> in the
  meantime, and only then tests \<open>running\<close> and leaves. A block that arrives when no
  thread waits is not read. An execution is followed up to its first exception.
\<close>

datatype event = Block env block | Toggle env

fun step :: "event \<Rightarrow> state \<Rightarrow> result" where
  "step (Block e b) s =
     (if readers s = 0 then Ok s
      else bind (record_iter e b s)
             (\<lambda>s1. Ok (if running s1 then s1 else s1\<lparr>readers := readers s1 - 1\<rparr>)))"
| "step (Toggle e) s = toggle e s"

fun run :: "event list \<Rightarrow> state \<Rightarrow> result" where
  "run [] s = Ok s"
| "run (ev # evs) s = bind (step ev s) (run evs)"

section \<open>The state after blocks have been written\<close>

text \<open>
  What a successful \<open>write_block\<close> does to the object, and the same for a list of blocks
  in turn. These only serve to say what the loop has written.
\<close>

definition put_block :: "block \<Rightarrow> state \<Rightarrow> state" where
  "put_block b s =
     s\<lparr>temp_wav := map_option (\<lambda>w. w\<lparr>frames := frames w @ pcm b\<rparr>) (temp_wav s),
       tail_buffer := deque_append TAIL_MAXLEN (tail_buffer s) (pcm b)\<rparr>"

fun put_all :: "block list \<Rightarrow> state \<Rightarrow> state" where
  "put_all [] s = s"
| "put_all (b # bs) s = put_all bs (put_block b s)"

section \<open>The trim rule as the specification's test section words it\<close>

definition spec_saved_length :: "nat \<Rightarrow> nat \<Rightarrow> nat" where
  "spec_saved_length capturedBytes tailWindowBytes =
     capturedBytes - min tailWindowBytes capturedBytes"

section \<open>Invariants of executions\<close>

text \<open>
  Between two events, \<open>recording\<close> and \<open>has_started_song\<close> agree, and while a segment is
  open the temporary file is open, the tail buffer holds at least one block and the
  start time is set.
\<close>

definition seg_inv :: "state \<Rightarrow> bool" where
  "seg_inv s \<longleftrightarrow>
     recording s = has_started_song s \<and>
     (has_started_song s \<longrightarrow>
        temp_wav s \<noteq> None \<and> tail_buffer s \<noteq> [] \<and> start_time s \<noteq> None)"

text \<open>The counter is one more than the number of files saved, and file \<open>i\<close> carries \<open>i + 1\<close>.\<close>

definition seq_inv :: "state \<Rightarrow> bool" where
  "seq_inv s \<longleftrightarrow>
     song_index s = int (length (songs s)) + 1 \<and>
     (\<forall>i<length (songs s). \<exists>st. fst (songs s ! i) = save_path (int i + 1) st)"

text \<open>The number a string of decimal digits denotes.\<close>

definition dec_val :: "string \<Rightarrow> nat" where
  "dec_val cs = foldl (\<lambda>a c. 10 * a + (of_char c - 48)) 0 cs"

section \<open>Example inputs\<close>

definition at_time :: "real \<Rightarrow> env" where
  "at_time t = \<lparr>now = t, stamp = ''20240101_000000'', open_ok = True, write_ok = True,
               save_ok = True\<rparr>"

definition loud_block :: block where
  "loud_block = \<lparr>level = 0.05, pcm = replicate 8192 0\<rparr>"

definition hold_block :: block where
  "hold_block = \<lparr>level = 0.01, pcm = replicate 8192 1\<rparr>"

definition quiet_block :: block where
  "quiet_block = \<lparr>level = 0.001, pcm = replicate 8192 2\<rparr>"

definition plain_wav :: "byte list \<Rightarrow> wav" where
  "plain_wav fr = \<lparr>nchannels = 2, sampwidth = 2, framerate = 44100, frames = fr\<rparr>"

text \<open>The state after the button was pressed once and one loud block was recorded.\<close>

definition one_block_state :: state where
  "one_block_state =
     \<lparr>running = True, song_index = 1, recording = True, has_started_song = True,
      silence_start = None, start_time = Some 0,
      temp_wav = Some (plain_wav (replicate 8192 0)),
      tail_buffer = [replicate 8192 0], songs = [], readers = 1\<rparr>"

text \<open>
  A state with 433 blocks written to the temporary file, the last 432 of them in the
  tail buffer.
\<close>

definition long_state :: state where
  "long_state =
     \<lparr>running = True, song_index = 1, recording = True, has_started_song = True,
      silence_start = None, start_time = Some 0,
      temp_wav = Some (plain_wav (replicate (433 * 8192) 0)),
      tail_buffer = replicate 432 (replicate 8192 0), songs = [], readers = 1\<rparr>"

section \<open>Basic facts\<close>

lemma TAIL_MAXLEN_eq: "TAIL_MAXLEN = 432"
  by (simp add: TAIL_MAXLEN_def SILENCE_TIME_def SAMPLE_RATE_def BLOCK_def)

lemma block_bytes_eq: "BLOCK * CHANNELS * 2 = 8192"
  by (simp add: BLOCK_def CHANNELS_def)

lemma deque_append_nonempty: "deque_append TAIL_MAXLEN d x \<noteq> []"
  by (simp add: deque_append_def TAIL_MAXLEN_eq)

lemma deque_append_single: "deque_append TAIL_MAXLEN [] x = [x]"
  by (simp add: deque_append_def TAIL_MAXLEN_eq)

lemma py_slice_to_neg:
  "0 < k \<Longrightarrow> py_slice_to (- int k) xs = take (length xs - k) xs"
  by (simp add: py_slice_to_def nat_diff_distrib')

lemma py_slice_to_zero: "py_slice_to (- int 0) xs = []"
  by (simp add: py_slice_to_def)

lemma trim_bytes_pos: "tail_buffer s \<noteq> [] \<Longrightarrow> BLOCK * CHANNELS * 2 \<le> trim_bytes s"
  by (cases "tail_buffer s") (simp_all add: trim_bytes_def)

lemma frames_trim_and_save:
  "tail_buffer s \<noteq> [] \<Longrightarrow>
   frames (trim_and_save s src) =
     (if trim_bytes s < length (frames src)
      then take (length (frames src) - trim_bytes s) (frames src) else frames src)"
proof -
  assume "tail_buffer s \<noteq> []"
  then have "0 < trim_bytes s"
    using trim_bytes_pos [of s] by (simp add: block_bytes_eq)
  then show ?thesis
    by (simp add: trim_and_save_def Let_def py_slice_to_neg)
qed

lemma header_trim_and_save:
  "nchannels (trim_and_save s src) = CHANNELS \<and> sampwidth (trim_and_save s src) = 2 \<and>
   framerate (trim_and_save s src) = SAMPLE_RATE"
  by (simp add: trim_and_save_def Let_def)

lemma trim_bytes_running: "trim_bytes (s\<lparr>running := r\<rparr>) = trim_bytes s"
  by (simp add: trim_bytes_def)

lemma trim_and_save_running: "trim_and_save (s\<lparr>running := r\<rparr>) w = trim_and_save s w"
  unfolding trim_and_save_def trim_bytes_running ..

lemma trim_and_save_tail:
  assumes "tail_buffer s = tail_buffer t"
  shows "trim_and_save s w = trim_and_save t w"
proof -
  have h: "trim_bytes s = trim_bytes t" using assms by (simp add: trim_bytes_def)
  show ?thesis unfolding trim_and_save_def h ..
qed

subsection \<open>Decimal formatting\<close>

lemma digit_val: "d < 10 \<Longrightarrow> of_char (digit_char d) - 48 = (d::nat)"
proof -
  assume "d < 10"
  then consider "d = 0" | "d = 1" | "d = 2" | "d = 3" | "d = 4" | "d = 5" | "d = 6"
    | "d = 7" | "d = 8" | "d = 9"
    by atomize_elim arith
  then show ?thesis by cases (simp_all add: digit_char_def)
qed

lemma dec_val_snoc: "dec_val (cs @ [c]) = 10 * dec_val cs + (of_char c - 48)"
  by (simp add: dec_val_def)

lemma dec_val_digits: "dec_val (digits n) = n"
proof (induction n rule: digits.induct)
  case (1 n)
  show ?case
  proof (cases "n < 10")
    case True
    then show ?thesis by (subst digits.simps) (simp add: dec_val_def digit_val)
  next
    case False
    with 1 have "dec_val (digits (n div 10)) = n div 10" by simp
    with False show ?thesis
      by (subst digits.simps) (simp add: dec_val_snoc digit_val)
  qed
qed

lemma dec_val_zeros: "dec_val (replicate k CHR ''0'' @ cs) = dec_val cs"
proof -
  have "foldl (\<lambda>a c. 10 * a + (of_char c - 48)) (0::nat) (replicate k CHR ''0'') = 0"
    by (induction k) simp_all
  then show ?thesis by (simp add: dec_val_def)
qed

lemma dec_val_fmt_03d: "0 \<le> n \<Longrightarrow> int (dec_val (fmt_03d n)) = n"
  by (simp add: fmt_03d_def Let_def dec_val_zeros dec_val_digits)

lemma length_digits: "n < 1000 \<Longrightarrow> length (digits n) \<le> 3"
  by (subst digits.simps, subst digits.simps, subst digits.simps) (simp)

lemma length_fmt_03d: "0 \<le> n \<Longrightarrow> n < 1000 \<Longrightarrow> length (fmt_03d n) = 3"
  using length_digits [of "nat n"] by (simp add: fmt_03d_def Let_def)

lemma fmt_03d_1: "fmt_03d 1 = ''001''"
  by (simp add: fmt_03d_def digits.simps digit_char_def Let_def eval_nat_numeral)

subsection \<open>When a call returns\<close>

lemma bind_Ok_iff: "bind r f = Ok s' \<longleftrightarrow> (\<exists>s1. r = Ok s1 \<and> f s1 = Ok s')"
  by (cases r) simp_all

lemma write_block_Ok_iff:
  "write_block e b s = Ok s' \<longleftrightarrow>
     (\<exists>w. temp_wav s = Some w \<and> write_ok e \<and>
          s' = s\<lparr>temp_wav := Some (w\<lparr>frames := frames w @ pcm b\<rparr>),
                 tail_buffer := deque_append TAIL_MAXLEN (tail_buffer s) (pcm b)\<rparr>)"
  by (cases "temp_wav s") (auto simp: write_block_def)

lemma start_new_song_Ok_iff:
  "start_new_song e s = Ok s' \<longleftrightarrow>
     (open_ok e \<and>
      s' = s\<lparr>recording := True, has_started_song := True, silence_start := None,
             start_time := Some (now e), tail_buffer := [],
             temp_wav := Some \<lparr>nchannels = CHANNELS, sampwidth = 2,
                                framerate = SAMPLE_RATE, frames = []\<rparr>\<rparr>)"
  by (auto simp: start_new_song_def Let_def)

lemma finalize_and_save_Ok_iff:
  "finalize_and_save e s = Ok s' \<longleftrightarrow>
     (case temp_wav s of
        None \<Rightarrow> s' = reset_state s
      | Some w \<Rightarrow> save_ok e \<and> start_time s \<noteq> None \<and>
          s' = reset_state
                 (s\<lparr>songs := songs s @ [(save_path (song_index s) (stamp e), trim_and_save s w)],
                    song_index := song_index s + 1\<rparr>))"
  by (cases "temp_wav s"; cases "start_time s") (auto simp: finalize_and_save_def)

lemma finalize_and_save_open:
  "temp_wav s = Some w \<Longrightarrow> start_time s = Some t \<Longrightarrow> save_ok e \<Longrightarrow>
   finalize_and_save e s =
     Ok (reset_state
          (s\<lparr>songs := songs s @ [(save_path (song_index s) (stamp e), trim_and_save s w)],
             song_index := song_index s + 1\<rparr>))"
  by (simp add: finalize_and_save_def)

lemma finalize_and_save_after:
  assumes "t = s\<lparr>temp_wav := Some w', tail_buffer := tb, silence_start := x\<rparr>"
    and "save_ok e" and "start_time s = Some t1"
  shows "finalize_and_save e t =
           Ok (reset_state
                (s\<lparr>songs := songs s @
                      [(save_path (song_index s) (stamp e),
                        trim_and_save (s\<lparr>tail_buffer := tb\<rparr>) w')],
                    song_index := song_index s + 1\<rparr>))"
proof -
  have "trim_and_save t w' = trim_and_save (s\<lparr>tail_buffer := tb\<rparr>) w'"
    by (rule trim_and_save_tail) (simp add: assms(1))
  then have "finalize_and_save e t =
           Ok (reset_state
                (t\<lparr>songs := songs t @
                      [(save_path (song_index t) (stamp e),
                        trim_and_save (s\<lparr>tail_buffer := tb\<rparr>) w')],
                    song_index := song_index t + 1\<rparr>))"
    using assms by (simp add: finalize_and_save_def)
  also have "\<dots> = Ok (reset_state
                (s\<lparr>songs := songs s @
                      [(save_path (song_index s) (stamp e),
                        trim_and_save (s\<lparr>tail_buffer := tb\<rparr>) w')],
                    song_index := song_index s + 1\<rparr>))"
    by (simp add: assms(1) reset_state_def)
  finally show ?thesis .
qed

lemma run_append: "run (xs @ ys) s = bind (run xs s) (run ys)"
proof (induction xs arbitrary: s)
  case Nil
  show ?case by simp
next
  case (Cons ev xs)
  show ?case
    by (cases "step ev s") (simp_all add: Cons.IH)
qed

lemma run_single: "run [ev] s = step ev s"
  by (cases "step ev s") simp_all

subsection \<open>The segment invariant\<close>

lemma seg_inv_init: "seg_inv init_state"
  by (simp add: seg_inv_def init_state_def)

lemma seg_inv_reset: "seg_inv (reset_state s)"
  by (simp add: seg_inv_def reset_state_def)

lemma seg_inv_finalize: "finalize_and_save e s = Ok s' \<Longrightarrow> seg_inv s'"
  by (cases "temp_wav s") (simp_all add: finalize_and_save_Ok_iff seg_inv_reset)

lemma seg_inv_write:
  "seg_inv s \<Longrightarrow> has_started_song s \<Longrightarrow> write_block e b s = Ok s' \<Longrightarrow>
   seg_inv s' \<and> has_started_song s'"
  by (auto simp: write_block_Ok_iff seg_inv_def deque_append_nonempty)

lemma seg_inv_start_write:
  "start_new_song e s = Ok s1 \<Longrightarrow> write_block e b s1 = Ok s' \<Longrightarrow>
   seg_inv s' \<and> has_started_song s'"
  by (auto simp: start_new_song_Ok_iff write_block_Ok_iff seg_inv_def deque_append_nonempty)

lemma seg_inv_silence: "seg_inv s \<Longrightarrow> seg_inv (s\<lparr>silence_start := x\<rparr>)"
  by (simp add: seg_inv_def)

lemma seg_inv_iter:
  assumes "seg_inv s" and "record_iter e b s = Ok s'"
  shows "seg_inv s'"
proof (cases "START_RMS \<le> level b")
  case loud: True
  show ?thesis
  proof (cases "recording s")
    case True
    then have hs: "has_started_song s" using assms(1) by (simp add: seg_inv_def)
    from assms(2) loud True obtain s2 where
      "write_block e b s = Ok s2" "s' = s2\<lparr>silence_start := None\<rparr>"
      by (auto simp: record_iter_def bind_Ok_iff)
    then show ?thesis using seg_inv_write [OF assms(1) hs] seg_inv_silence by blast
  next
    case False
    from assms(2) loud False obtain s1 s2 where
      "start_new_song e s = Ok s1" "write_block e b s1 = Ok s2"
      "s' = s2\<lparr>silence_start := None\<rparr>"
      by (auto simp: record_iter_def bind_Ok_iff)
    then show ?thesis using seg_inv_start_write seg_inv_silence by blast
  qed
next
  case quiet: False
  show ?thesis
  proof (cases "has_started_song s")
    case False
    with quiet assms show ?thesis by (simp add: record_iter_def)
  next
    case True
    from assms(2) quiet True obtain s1 where
      wb: "write_block e b s = Ok s1" and
      rest: "(if level b < SILENCE_RMS then
                (case silence_start s1 of
                   None \<Rightarrow> Ok (s1\<lparr>silence_start := Some (now e)\<rparr>)
                 | Some t0 \<Rightarrow>
                     if SILENCE_TIME \<le> now e - t0 then finalize_and_save e s1 else Ok s1)
              else Ok (s1\<lparr>silence_start := None\<rparr>)) = Ok s'"
      by (auto simp: record_iter_def bind_Ok_iff)
    have i1: "seg_inv s1" using seg_inv_write [OF assms(1) True wb] by simp
    from rest i1 show ?thesis
      by (auto simp: seg_inv_silence seg_inv_finalize split: option.splits if_splits)
  qed
qed

lemma seg_inv_toggle:
  assumes "seg_inv s" and "toggle e s = Ok s'"
  shows "seg_inv s'"
proof (cases "running s")
  case False
  with assms(2) have "s' = (reset_state s)\<lparr>running := True, readers := readers s + 1\<rparr>"
    by (simp add: toggle_def)
  then show ?thesis by (simp add: seg_inv_def reset_state_def)
next
  case True
  show ?thesis
  proof (cases "has_started_song s")
    case hs: True
    with True assms(2) have "finalize_and_save e (s\<lparr>running := False\<rparr>) = Ok s'"
      by (simp add: toggle_def finalize_if_needed_def)
    then show ?thesis by (rule seg_inv_finalize)
  next
    case False
    with True assms(2) have "s' = s\<lparr>running := False\<rparr>"
      by (simp add: toggle_def finalize_if_needed_def)
    with assms(1) show ?thesis by (simp add: seg_inv_def)
  qed
qed

lemma seg_inv_readers: "seg_inv s \<Longrightarrow> seg_inv (s\<lparr>readers := n\<rparr>)"
  by (simp add: seg_inv_def)

lemma seg_inv_step: "seg_inv s \<Longrightarrow> step ev s = Ok s' \<Longrightarrow> seg_inv s'"
proof (cases ev)
  case (Block e b)
  assume inv: "seg_inv s" and st: "step ev s = Ok s'"
  show ?thesis
  proof (cases "readers s = 0")
    case True
    with Block inv st show ?thesis by simp
  next
    case False
    with Block st obtain s1 where it: "record_iter e b s = Ok s1"
      and s': "s' = (if running s1 then s1 else s1\<lparr>readers := readers s1 - 1\<rparr>)"
      by (auto simp: bind_Ok_iff)
    have "seg_inv s1" using inv it by (rule seg_inv_iter)
    with s' show ?thesis by (simp add: seg_inv_readers)
  qed
next
  case (Toggle e)
  assume "seg_inv s" "step ev s = Ok s'"
  with Toggle show ?thesis by (simp add: seg_inv_toggle)
qed

lemma seg_inv_run: "seg_inv s \<Longrightarrow> run evs s = Ok s' \<Longrightarrow> seg_inv s'"
proof (induction evs arbitrary: s)
  case Nil
  then show ?case by simp
next
  case (Cons ev evs)
  from Cons.prems(2) obtain s1 where "step ev s = Ok s1" "run evs s1 = Ok s'"
    by (auto simp: bind_Ok_iff)
  with Cons.IH Cons.prems(1) seg_inv_step show ?case by blast
qed

subsection \<open>The sequence invariant\<close>

lemma seq_inv_init: "seq_inv init_state"
  by (simp add: seq_inv_def init_state_def)

lemma seq_inv_fields:
  "seq_inv s \<Longrightarrow> songs s' = songs s \<Longrightarrow> song_index s' = song_index s \<Longrightarrow> seq_inv s'"
  by (simp add: seq_inv_def)

lemma seq_inv_finalize:
  assumes "seq_inv s" and "finalize_and_save e s = Ok s'"
  shows "seq_inv s'"
proof (cases "temp_wav s")
  case None
  with assms(2) have "s' = reset_state s" by (simp add: finalize_and_save_Ok_iff)
  with assms(1) show ?thesis by (simp add: seq_inv_def reset_state_def)
next
  case (Some w)
  with assms(2) have s': "songs s' = songs s @ [(save_path (song_index s) (stamp e), trim_and_save s w)]"
    "song_index s' = song_index s + 1"
    by (simp_all add: finalize_and_save_Ok_iff reset_state_def)
  from assms(1) have idx: "song_index s = int (length (songs s)) + 1"
    and old: "\<forall>i<length (songs s). \<exists>st. fst (songs s ! i) = save_path (int i + 1) st"
    by (simp_all add: seq_inv_def)
  have "\<exists>st. fst (songs s' ! i) = save_path (int i + 1) st" if "i < length (songs s')" for i
  proof (cases "i < length (songs s)")
    case True
    with old s'(1) show ?thesis by (simp add: nth_append)
  next
    case False
    with that s'(1) have "i = length (songs s)" by simp
    with s'(1) idx show ?thesis by (auto simp: nth_append)
  qed
  with s' idx show ?thesis by (simp add: seq_inv_def)
qed

lemma write_block_keeps:
  "write_block e b s = Ok s' \<Longrightarrow> songs s' = songs s \<and> song_index s' = song_index s"
  by (auto simp: write_block_Ok_iff)

lemma start_new_song_keeps:
  "start_new_song e s = Ok s' \<Longrightarrow> songs s' = songs s \<and> song_index s' = song_index s"
  by (auto simp: start_new_song_Ok_iff)

lemma seq_inv_iter:
  assumes "seq_inv s" and "record_iter e b s = Ok s'"
  shows "seq_inv s'"
proof (cases "START_RMS \<le> level b")
  case loud: True
  show ?thesis
  proof (cases "recording s")
    case True
    from assms(2) loud True obtain s2 where
      "write_block e b s = Ok s2" "s' = s2\<lparr>silence_start := None\<rparr>"
      by (auto simp: record_iter_def bind_Ok_iff)
    then have "songs s' = songs s" "song_index s' = song_index s"
      using write_block_keeps by auto
    with assms(1) show ?thesis by (rule seq_inv_fields)
  next
    case False
    from assms(2) loud False obtain s1 s2 where
      "start_new_song e s = Ok s1" "write_block e b s1 = Ok s2"
      "s' = s2\<lparr>silence_start := None\<rparr>"
      by (auto simp: record_iter_def bind_Ok_iff)
    then have "songs s' = songs s" "song_index s' = song_index s"
      using write_block_keeps start_new_song_keeps by auto
    with assms(1) show ?thesis by (rule seq_inv_fields)
  qed
next
  case quiet: False
  show ?thesis
  proof (cases "has_started_song s")
    case False
    with quiet assms show ?thesis by (simp add: record_iter_def)
  next
    case True
    from assms(2) quiet True obtain s1 where
      wb: "write_block e b s = Ok s1" and
      rest: "(if level b < SILENCE_RMS then
                (case silence_start s1 of
                   None \<Rightarrow> Ok (s1\<lparr>silence_start := Some (now e)\<rparr>)
                 | Some t0 \<Rightarrow>
                     if SILENCE_TIME \<le> now e - t0 then finalize_and_save e s1 else Ok s1)
              else Ok (s1\<lparr>silence_start := None\<rparr>)) = Ok s'"
      by (auto simp: record_iter_def bind_Ok_iff)
    have i1: "seq_inv s1"
      using seq_inv_fields [OF assms(1)] write_block_keeps [OF wb] by simp
    have i2: "seq_inv (s1\<lparr>silence_start := x\<rparr>)" for x
      using i1 by (simp add: seq_inv_def)
    from rest i1 i2 show ?thesis
      by (auto simp: seq_inv_finalize split: option.splits if_splits)
  qed
qed

lemma seq_inv_toggle:
  assumes "seq_inv s" and "toggle e s = Ok s'"
  shows "seq_inv s'"
proof (cases "running s")
  case False
  with assms(2) have "s' = (reset_state s)\<lparr>running := True, readers := readers s + 1\<rparr>"
    by (simp add: toggle_def)
  with assms(1) show ?thesis by (simp add: seq_inv_def reset_state_def)
next
  case True
  have i0: "seq_inv (s\<lparr>running := False\<rparr>)" using assms(1) by (simp add: seq_inv_def)
  show ?thesis
  proof (cases "has_started_song s")
    case hs: True
    with True assms(2) have "finalize_and_save e (s\<lparr>running := False\<rparr>) = Ok s'"
      by (simp add: toggle_def finalize_if_needed_def)
    with i0 show ?thesis by (rule seq_inv_finalize)
  next
    case False
    with True assms(2) have "s' = s\<lparr>running := False\<rparr>"
      by (simp add: toggle_def finalize_if_needed_def)
    with i0 show ?thesis by simp
  qed
qed

lemma seq_inv_readers: "seq_inv s \<Longrightarrow> seq_inv (s\<lparr>readers := n\<rparr>)"
  by (simp add: seq_inv_def)

lemma seq_inv_step: "seq_inv s \<Longrightarrow> step ev s = Ok s' \<Longrightarrow> seq_inv s'"
proof (cases ev)
  case (Block e b)
  assume inv: "seq_inv s" and st: "step ev s = Ok s'"
  show ?thesis
  proof (cases "readers s = 0")
    case True
    with Block inv st show ?thesis by simp
  next
    case False
    with Block st obtain s1 where it: "record_iter e b s = Ok s1"
      and s': "s' = (if running s1 then s1 else s1\<lparr>readers := readers s1 - 1\<rparr>)"
      by (auto simp: bind_Ok_iff)
    have "seq_inv s1" using inv it by (rule seq_inv_iter)
    with s' show ?thesis by (simp add: seq_inv_readers)
  qed
next
  case (Toggle e)
  assume "seq_inv s" "step ev s = Ok s'"
  with Toggle show ?thesis by (simp add: seq_inv_toggle)
qed

lemma seq_inv_run: "seq_inv s \<Longrightarrow> run evs s = Ok s' \<Longrightarrow> seq_inv s'"
proof (induction evs arbitrary: s)
  case Nil
  then show ?case by simp
next
  case (Cons ev evs)
  from Cons.prems(2) obtain s1 where "step ev s = Ok s1" "run evs s1 = Ok s'"
    by (auto simp: bind_Ok_iff)
  with Cons.IH Cons.prems(1) seq_inv_step show ?case by blast
qed

subsection \<open>One iteration while a segment is open\<close>

lemma quiet_not_loud: "level b < SILENCE_RMS \<Longrightarrow> \<not> START_RMS \<le> level b"
  by (simp add: SILENCE_RMS_def START_RMS_def)

lemma put_block_fields:
  "running (put_block b s) = running s" "recording (put_block b s) = recording s"
  "has_started_song (put_block b s) = has_started_song s"
  "silence_start (put_block b s) = silence_start s"
  "songs (put_block b s) = songs s" "song_index (put_block b s) = song_index s"
  "tail_buffer (put_block b s) = deque_append TAIL_MAXLEN (tail_buffer s) (pcm b)"
  "temp_wav s = Some w \<Longrightarrow> temp_wav (put_block b s) = Some (w\<lparr>frames := frames w @ pcm b\<rparr>)"
  by (simp_all add: put_block_def)

lemma write_block_put:
  "temp_wav s = Some w \<Longrightarrow> write_ok e \<Longrightarrow> write_block e b s = Ok (put_block b s)"
  by (simp add: write_block_def put_block_def)

lemma iter_not_silent:
  assumes "recording s" and "has_started_song s" and "temp_wav s = Some w"
    and "write_ok e" and "SILENCE_RMS \<le> level b"
  shows "record_iter e b s = Ok ((put_block b s)\<lparr>silence_start := None\<rparr>)"
proof (cases "START_RMS \<le> level b")
  case True
  with assms(1) write_block_put [OF assms(3,4)] show ?thesis
    by (simp add: record_iter_def)
next
  case False
  with assms(2,5) write_block_put [OF assms(3,4)] show ?thesis
    by (simp add: record_iter_def)
qed

lemma iter_silence_begins:
  assumes "has_started_song s" and "temp_wav s = Some w" and "write_ok e"
    and "level b < SILENCE_RMS" and "silence_start s = None"
  shows "record_iter e b s = Ok ((put_block b s)\<lparr>silence_start := Some (now e)\<rparr>)"
  using assms(1,4,5) quiet_not_loud [OF assms(4)] write_block_put [OF assms(2,3)]
  by (simp add: record_iter_def put_block_fields)

lemma iter_silence_grace:
  assumes "has_started_song s" and "temp_wav s = Some w" and "write_ok e"
    and "level b < SILENCE_RMS" and "silence_start s = Some t0"
    and "now e - t0 < SILENCE_TIME"
  shows "record_iter e b s = Ok (put_block b s)"
  using assms(1,4,5,6) quiet_not_loud [OF assms(4)] write_block_put [OF assms(2,3)]
  by (simp add: record_iter_def put_block_fields)

lemma iter_silence_expired:
  assumes "has_started_song s" and "temp_wav s = Some w" and "write_ok e"
    and "level b < SILENCE_RMS" and "silence_start s = Some t0"
    and "SILENCE_TIME \<le> now e - t0"
  shows "record_iter e b s = finalize_and_save e (put_block b s)"
  using assms(1,4,5,6) quiet_not_loud [OF assms(4)] write_block_put [OF assms(2,3)]
  by (simp add: record_iter_def put_block_fields)

lemma put_all_fields:
  "running (put_all bs s) = running s" "recording (put_all bs s) = recording s"
  "has_started_song (put_all bs s) = has_started_song s"
  "silence_start (put_all bs s) = silence_start s"
  "songs (put_all bs s) = songs s" "song_index (put_all bs s) = song_index s"
  by (induction bs arbitrary: s) (simp_all add: put_block_fields)

lemma put_all_tail:
  "tail_buffer (put_all bs s) = foldl (deque_append TAIL_MAXLEN) (tail_buffer s) (map pcm bs)"
  by (induction bs arbitrary: s) (simp_all add: put_block_fields)

lemma put_all_temp:
  "temp_wav s = Some w \<Longrightarrow>
   temp_wav (put_all bs s) = Some (w\<lparr>frames := frames w @ concat (map pcm bs)\<rparr>)"
proof (induction bs arbitrary: s w)
  case Nil
  then show ?case by simp
next
  case (Cons b bs)
  from Cons.prems have "temp_wav (put_block b s) = Some (w\<lparr>frames := frames w @ pcm b\<rparr>)"
    by (rule put_block_fields)
  from Cons.IH [OF this] show ?case by simp
qed

lemma put_block_silence_upd:
  "put_block b (s\<lparr>silence_start := x\<rparr>) = (put_block b s)\<lparr>silence_start := x\<rparr>"
  by (simp add: put_block_def)

lemma put_all_silence_upd:
  "put_all bs (s\<lparr>silence_start := x\<rparr>) = (put_all bs s)\<lparr>silence_start := x\<rparr>"
  by (induction bs arbitrary: s) (simp_all add: put_block_silence_upd)

lemma put_all_append: "put_all (as @ bs) s = put_all bs (put_all as s)"
  by (induction as arbitrary: s) simp_all

lemma put_block_only:
  "put_block b s = s\<lparr>temp_wav := temp_wav (put_block b s),
                        tail_buffer := tail_buffer (put_block b s)\<rparr>"
  by (simp add: put_block_def)

lemma put_all_only:
  "put_all bs s = s\<lparr>temp_wav := temp_wav (put_all bs s),
                      tail_buffer := tail_buffer (put_all bs s)\<rparr>"
proof (induction bs arbitrary: s)
  case Nil
  show ?case by simp
next
  case (Cons b bs)
  have "put_all (b # bs) s = put_all bs (put_block b s)" by simp
  also have "\<dots> = (put_block b s)\<lparr>temp_wav := temp_wav (put_all bs (put_block b s)),
                      tail_buffer := tail_buffer (put_all bs (put_block b s))\<rparr>"
    by (rule Cons.IH)
  also have "\<dots> = s\<lparr>temp_wav := temp_wav (put_all bs (put_block b s)),
                      tail_buffer := tail_buffer (put_all bs (put_block b s))\<rparr>"
    by (subst put_block_only) simp
  finally show ?case by simp
qed

subsection \<open>The loop while a segment is open\<close>

lemma loop_not_silent:
  assumes "running s" and "recording s" and "has_started_song s" and "temp_wav s = Some w"
    and "\<forall>x\<in>set bs. SILENCE_RMS \<le> level (snd x) \<and> write_ok (fst x)"
  shows "record_loop bs s =
           Ok (if bs = [] then s else (put_all (map snd bs) s)\<lparr>silence_start := None\<rparr>)"
  using assms
proof (induction bs arbitrary: s w)
  case Nil
  show ?case by simp
next
  case (Cons x bs)
  obtain e b where x: "x = (e, b)" by (cases x)
  let ?s1 = "(put_block b s)\<lparr>silence_start := None\<rparr>"
  from Cons.prems x have it: "record_iter e b s = Ok ?s1"
    by (simp add: iter_not_silent)
  have p: "running ?s1" "recording ?s1" "has_started_song ?s1"
    "temp_wav ?s1 = Some (w\<lparr>frames := frames w @ pcm b\<rparr>)"
    using Cons.prems by (simp_all add: put_block_fields)
  have q: "\<forall>x\<in>set bs. SILENCE_RMS \<le> level (snd x) \<and> write_ok (fst x)"
    using Cons.prems(5) by simp
  have "record_loop (x # bs) s = record_loop bs ?s1"
    using Cons.prems(1) it x by simp
  also have "\<dots> = Ok (if bs = [] then ?s1
                        else (put_all (map snd bs) ?s1)\<lparr>silence_start := None\<rparr>)"
    using p q by (rule Cons.IH)
  also have "\<dots> = Ok ((put_all (map snd (x # bs)) s)\<lparr>silence_start := None\<rparr>)"
    using x by (simp add: put_all_silence_upd)
  finally show ?case by simp
qed

lemma loop_grace:
  assumes "running s" and "has_started_song s" and "temp_wav s = Some w"
    and "silence_start s = Some t0"
    and "\<forall>x\<in>set mid. level (snd x) < SILENCE_RMS \<and> write_ok (fst x) \<and>
                      now (fst x) - t0 < SILENCE_TIME"
  shows "record_loop (mid @ rest) s = record_loop rest (put_all (map snd mid) s)"
  using assms
proof (induction mid arbitrary: s w)
  case Nil
  show ?case by simp
next
  case (Cons x mid)
  obtain e b where x: "x = (e, b)" by (cases x)
  let ?s1 = "put_block b s"
  from Cons.prems x have it: "record_iter e b s = Ok ?s1"
    by (simp add: iter_silence_grace)
  have p: "running ?s1" "has_started_song ?s1"
    "temp_wav ?s1 = Some (w\<lparr>frames := frames w @ pcm b\<rparr>)"
    "silence_start ?s1 = Some t0"
    using Cons.prems by (simp_all add: put_block_fields)
  have q: "\<forall>x\<in>set mid. level (snd x) < SILENCE_RMS \<and> write_ok (fst x) \<and>
                      now (fst x) - t0 < SILENCE_TIME"
    using Cons.prems(5) by simp
  have "record_loop ((x # mid) @ rest) s = record_loop (mid @ rest) ?s1"
    using Cons.prems(1) it x by simp
  also have "\<dots> = record_loop rest (put_all (map snd mid) ?s1)"
    using p q by (rule Cons.IH)
  finally show ?case using x by simp
qed

subsection \<open>The example execution\<close>

lemma run_one_block:
  "run [Toggle (at_time 0), Block (at_time 0) loud_block] init_state = Ok one_block_state"
  by (simp add: toggle_def init_state_def reset_state_def record_iter_def at_time_def
      loud_block_def START_RMS_def start_new_song_def write_block_def deque_append_single
      one_block_state_def plain_wav_def CHANNELS_def SAMPLE_RATE_def)

lemma trim_bytes_one_block: "trim_bytes one_block_state = 8192"
  by (simp add: trim_bytes_def one_block_state_def block_bytes_eq)

lemma trim_one_block:
  "trim_and_save one_block_state (plain_wav (replicate 8192 0)) = plain_wav (replicate 8192 0)"
  by (simp add: trim_and_save_def trim_bytes_one_block plain_wav_def CHANNELS_def
      SAMPLE_RATE_def)

lemma finalize_one_block:
  "finalize_and_save (at_time t) (one_block_state\<lparr>running := r\<rparr>) =
     Ok (init_state\<lparr>running := r, readers := 1,
           songs := [(''songs/song_001_20240101_000000.wav'', plain_wav (replicate 8192 0))],
           song_index := 2\<rparr>)"
proof -
  have "temp_wav (one_block_state\<lparr>running := r\<rparr>) = Some (plain_wav (replicate 8192 0))"
    by (simp add: one_block_state_def)
  then show ?thesis
    by (simp add: finalize_and_save_def trim_and_save_running trim_one_block)
      (simp add: one_block_state_def at_time_def reset_state_def init_state_def
        save_path_def SAVE_DIR_def fmt_03d_1)
qed

lemma run_one_song:
  "run [Toggle (at_time 0), Block (at_time 0) loud_block, Toggle (at_time t)] init_state =
     Ok (init_state\<lparr>readers := 1, songs :=
            [(''songs/song_001_20240101_000000.wav'', plain_wav (replicate 8192 0))],
          song_index := 2\<rparr>)"
proof -
  have "run ([Toggle (at_time 0), Block (at_time 0) loud_block] @ [Toggle (at_time t)])
          init_state = toggle (at_time t) one_block_state"
    unfolding run_append run_one_block by (simp add: run_single del: run.simps)
  also have "\<dots> = finalize_and_save (at_time t) (one_block_state\<lparr>running := False\<rparr>)"
    by (simp add: toggle_def finalize_if_needed_def one_block_state_def)
  finally show ?thesis by (simp add: finalize_one_block init_state_def)
qed

section \<open>Trimming\<close>

text \<open>
  C1, as the code has it. When an open segment (temporary file open, start time set,
  at least one block in the tail buffer) is finalized and saving succeeds, the saved
  file has 2 channels, 2-byte samples and a frame rate of 44100, and its number of
  sample bytes is the number captured minus \<open>trim_bytes\<close> when \<open>trim_bytes\<close> is smaller
  than the number captured, and the number captured otherwise. In particular a segment
  exactly as long as the tail window is saved whole: nothing is trimmed.
\<close>

theorem saved_length:
  assumes "temp_wav s = Some w" and "start_time s = Some t0" and "save_ok e"
    and "tail_buffer s \<noteq> []"
  shows "\<exists>s' p out.
           finalize_and_save e s = Ok s' \<and> songs s' = songs s @ [(p, out)] \<and>
           nchannels out = 2 \<and> sampwidth out = 2 \<and> framerate out = 44100 \<and>
           length (frames out) =
             (if trim_bytes s < length (frames w)
              then length (frames w) - trim_bytes s else length (frames w)) \<and>
           (trim_bytes s = length (frames w) \<longrightarrow> frames out = frames w)"
proof -
  let ?out = "trim_and_save s w"
  let ?s' = "reset_state
               (s\<lparr>songs := songs s @ [(save_path (song_index s) (stamp e), ?out)],
                  song_index := song_index s + 1\<rparr>)"
  have 1: "finalize_and_save e s = Ok ?s'"
    using assms(1,2,3) by (rule finalize_and_save_open)
  have 2: "songs ?s' = songs s @ [(save_path (song_index s) (stamp e), ?out)]"
    by (simp add: reset_state_def)
  have 3: "nchannels ?out = 2 \<and> sampwidth ?out = 2 \<and> framerate ?out = 44100"
    using header_trim_and_save [of s w] by (simp add: CHANNELS_def SAMPLE_RATE_def)
  have f: "frames ?out =
             (if trim_bytes s < length (frames w)
              then take (length (frames w) - trim_bytes s) (frames w) else frames w)"
    using assms(4) by (rule frames_trim_and_save)
  have 4: "length (frames ?out) =
             (if trim_bytes s < length (frames w)
              then length (frames w) - trim_bytes s else length (frames w))"
    by (simp add: f)
  have 5: "trim_bytes s = length (frames w) \<longrightarrow> frames ?out = frames w"
    by (simp add: f)
  from 1 2 3 4 5 show ?thesis by blast
qed

theorem saved_length_witness:
  "temp_wav long_state = Some (plain_wav (replicate (433 * 8192) 0)) \<and>
   start_time long_state = Some 0 \<and> save_ok (at_time 30) \<and> tail_buffer long_state \<noteq> [] \<and>
   trim_bytes long_state = 432 * 8192 \<and>
   (\<exists>s' p out.
      finalize_and_save (at_time 30) long_state = Ok s' \<and> songs s' = [(p, out)] \<and>
      nchannels out = 2 \<and> sampwidth out = 2 \<and> framerate out = 44100 \<and>
      length (frames out) = 8192)"
proof -
  have h: "temp_wav long_state = Some (plain_wav (replicate (433 * 8192) 0))"
    "start_time long_state = Some 0" "save_ok (at_time 30)" "tail_buffer long_state \<noteq> []"
    by (simp_all add: long_state_def at_time_def)
  have t: "trim_bytes long_state = 432 * 8192"
    by (simp add: trim_bytes_def long_state_def BLOCK_def CHANNELS_def)
  have s: "songs long_state = []" by (simp add: long_state_def)
  from saved_length [OF h] h t s show ?thesis
    by (simp add: plain_wav_def)
qed

theorem saved_length_counterexample:
  "run [Toggle (at_time 0), Block (at_time 0) loud_block] init_state = Ok one_block_state \<and>
   temp_wav one_block_state = Some (plain_wav (replicate 8192 0)) \<and>
   length (frames (plain_wav (replicate 8192 0))) = 8192 \<and>
   trim_bytes one_block_state = 8192 \<and>
   finalize_and_save (at_time 3) one_block_state =
     Ok (init_state\<lparr>running := True, readers := 1,
           songs := [(''songs/song_001_20240101_000000.wav'', plain_wav (replicate 8192 0))],
           song_index := 2\<rparr>) \<and>
   length (frames (plain_wav (replicate 8192 0))) \<noteq> spec_saved_length 8192 8192"
proof -
  have f: "finalize_and_save (at_time 3) one_block_state =
     Ok (init_state\<lparr>running := True, readers := 1,
           songs := [(''songs/song_001_20240101_000000.wav'', plain_wav (replicate 8192 0))],
           song_index := 2\<rparr>)"
    using finalize_one_block [of 3 True] by (simp add: one_block_state_def)
  have t: "temp_wav one_block_state = Some (plain_wav (replicate 8192 0))"
    by (simp add: one_block_state_def)
  from run_one_block f t trim_bytes_one_block show ?thesis
    by (simp add: plain_wav_def spec_saved_length_def)
qed

text \<open>
  C2. At finalize of an open segment the trim amount is the number of blocks in the
  tail buffer times \<open>BLOCK * CHANNELS * 2\<close> (two bytes per sample). If it is less than
  the number of bytes captured, the saved file holds the captured bytes without their
  last \<open>trim_bytes\<close> bytes; otherwise it holds all captured bytes. Either way the call
  returns normally. While a segment is open the temporary file is open, the start time
  is set and the tail buffer is not empty (the segment invariant).
\<close>

theorem trim_rule:
  assumes "temp_wav s = Some w" and "start_time s = Some t0" and "save_ok e"
    and "tail_buffer s \<noteq> []"
  shows "trim_bytes s = length (tail_buffer s) * BLOCK * CHANNELS * 2 \<and>
         (\<exists>s'. finalize_and_save e s = Ok s' \<and>
               songs s' = songs s @
                 [(save_path (song_index s) (stamp e),
                   \<lparr>nchannels = CHANNELS, sampwidth = 2, framerate = SAMPLE_RATE,
                    frames = (if trim_bytes s < length (frames w)
                              then take (length (frames w) - trim_bytes s) (frames w)
                              else frames w)\<rparr>)]) \<and>
         (trim_bytes s < length (frames w) \<longrightarrow>
            (\<exists>dropped. frames w = take (length (frames w) - trim_bytes s) (frames w) @ dropped \<and>
                       length dropped = trim_bytes s))"
proof -
  have f: "frames (trim_and_save s w) =
             (if trim_bytes s < length (frames w)
              then take (length (frames w) - trim_bytes s) (frames w) else frames w)"
    using assms(4) by (rule frames_trim_and_save)
  have t: "trim_and_save s w =
             \<lparr>nchannels = CHANNELS, sampwidth = 2, framerate = SAMPLE_RATE,
              frames = (if trim_bytes s < length (frames w)
                        then take (length (frames w) - trim_bytes s) (frames w)
                        else frames w)\<rparr>"
    using f header_trim_and_save [of s w] by (cases "trim_and_save s w") simp
  have 1: "\<exists>s'. finalize_and_save e s = Ok s' \<and>
               songs s' = songs s @
                 [(save_path (song_index s) (stamp e),
                   \<lparr>nchannels = CHANNELS, sampwidth = 2, framerate = SAMPLE_RATE,
                    frames = (if trim_bytes s < length (frames w)
                              then take (length (frames w) - trim_bytes s) (frames w)
                              else frames w)\<rparr>)]"
    using finalize_and_save_open [OF assms(1,2,3)] t by (simp add: reset_state_def)
  have 2: "\<exists>dropped. frames w = take (length (frames w) - trim_bytes s) (frames w) @ dropped \<and>
                       length dropped = trim_bytes s"
    if "trim_bytes s < length (frames w)"
  proof (intro exI conjI)
    show "frames w = take (length (frames w) - trim_bytes s) (frames w) @
                     drop (length (frames w) - trim_bytes s) (frames w)"
      by simp
    show "length (drop (length (frames w) - trim_bytes s) (frames w)) = trim_bytes s"
      using that by simp
  qed
  from 1 2 show ?thesis by (simp add: trim_bytes_def)
qed

theorem trim_rule_witness:
  "temp_wav one_block_state = Some (plain_wav (replicate 8192 0)) \<and>
   start_time one_block_state = Some 0 \<and> save_ok (at_time 3) \<and>
   tail_buffer one_block_state \<noteq> [] \<and>
   trim_bytes one_block_state = 1 * BLOCK * CHANNELS * 2 \<and>
   \<not> trim_bytes one_block_state < length (replicate 8192 (0::byte)) \<and>
   finalize_and_save (at_time 3) one_block_state =
     Ok (init_state\<lparr>running := True, readers := 1,
           songs := [(''songs/song_001_20240101_000000.wav'', plain_wav (replicate 8192 0))],
           song_index := 2\<rparr>)"
proof -
  have h: "temp_wav one_block_state = Some (plain_wav (replicate 8192 0))"
    "start_time one_block_state = Some 0"
    "save_ok (at_time 3)" "tail_buffer one_block_state \<noteq> []"
    by (simp_all add: one_block_state_def at_time_def)
  have l: "length (tail_buffer one_block_state) = 1" by (simp add: one_block_state_def)
  from trim_rule [OF h]
  have "trim_bytes one_block_state = length (tail_buffer one_block_state) * BLOCK * CHANNELS * 2"
    by blast
  then have t: "trim_bytes one_block_state = 1 * BLOCK * CHANNELS * 2" by (simp only: l)
  have f: "finalize_and_save (at_time 3) one_block_state =
     Ok (init_state\<lparr>running := True, readers := 1,
           songs := [(''songs/song_001_20240101_000000.wav'', plain_wav (replicate 8192 0))],
           song_index := 2\<rparr>)"
    using finalize_one_block [of 3 True] by (simp add: one_block_state_def)
  from h t f show ?thesis by (simp add: block_bytes_eq)
qed

section \<open>Silence that lasts\<close>

text \<open>
  C3. A segment is open (with its start time set) and \<open>silence_start\<close> is unset. Blocks below \<open>SILENCE_RMS\<close> arrive:
  a first one at time \<open>now e0\<close>, then blocks \<open>mid\<close> whose times are less than
  \<open>SILENCE_TIME\<close> after \<open>now e0\<close>, then a block \<open>bN\<close> whose time is at least \<open>SILENCE_TIME\<close>
  after it. Then the loop does not finalize before \<open>bN\<close>: after the first block and
  \<open>mid\<close> the segment is still open, nothing was saved, every one of these blocks is in
  the temporary file, and \<open>silence_start\<close> is \<open>now e0\<close>. At \<open>bN\<close> the loop writes \<open>bN\<close> as
  well and then finalizes: one file is saved, made by \<open>trim_and_save\<close> from a temporary
  file that holds all the silent blocks up to and including \<open>bN\<close>, and the segment state
  is reset. (Writing and saving are taken to succeed.)
\<close>

theorem finalize_at_first_expired_block:
  assumes "running s" and "has_started_song s" and "temp_wav s = Some w"
    and "silence_start s = None"
    and "\<forall>x\<in>set ((e0, b0) # mid @ [(eN, bN)]).
           level (snd x) < SILENCE_RMS \<and> write_ok (fst x)"
    and "\<forall>x\<in>set mid. now (fst x) - now e0 < SILENCE_TIME"
    and "SILENCE_TIME \<le> now eN - now e0"
    and "save_ok eN" and "start_time s = Some ts"
  shows "(\<exists>s1. record_loop ((e0, b0) # mid) s = Ok s1 \<and> has_started_song s1 \<and>
               songs s1 = songs s \<and> song_index s1 = song_index s \<and>
               silence_start s1 = Some (now e0) \<and>
               temp_wav s1 =
                 Some (w\<lparr>frames := frames w @ concat (map (pcm \<circ> snd) ((e0, b0) # mid))\<rparr>)) \<and>
         record_loop ((e0, b0) # mid @ [(eN, bN)]) s =
           Ok (reset_state
                (s\<lparr>songs := songs s @
                      [(save_path (song_index s) (stamp eN),
                        trim_and_save
                          (s\<lparr>tail_buffer :=
                               foldl (deque_append TAIL_MAXLEN) (tail_buffer s)
                                 (map (pcm \<circ> snd) ((e0, b0) # mid @ [(eN, bN)]))\<rparr>)
                          (w\<lparr>frames := frames w @
                               concat (map (pcm \<circ> snd) ((e0, b0) # mid @ [(eN, bN)]))\<rparr>))],
                    song_index := song_index s + 1\<rparr>))"
proof -
  let ?s0 = "(put_block b0 s)\<lparr>silence_start := Some (now e0)\<rparr>"
  let ?s1 = "put_all (map snd mid) ?s0"
  let ?s2 = "put_block bN ?s1"
  let ?all = "(e0, b0) # mid @ [(eN, bN)]"
  have first: "record_iter e0 b0 s = Ok ?s0"
    using assms(2,3,4,5) by (simp add: iter_silence_begins)
  have p0: "running ?s0" "has_started_song ?s0"
    "temp_wav ?s0 = Some (w\<lparr>frames := frames w @ pcm b0\<rparr>)"
    "silence_start ?s0 = Some (now e0)"
    using assms(1,2,3) by (simp_all add: put_block_fields)
  have q: "\<forall>x\<in>set mid. level (snd x) < SILENCE_RMS \<and> write_ok (fst x) \<and>
                      now (fst x) - now e0 < SILENCE_TIME"
    using assms(5,6) by simp
  have grace: "record_loop (mid @ rest) ?s0 = record_loop rest ?s1" for rest
    using p0 q by (rule loop_grace)
  have p1: "running ?s1" "has_started_song ?s1" "silence_start ?s1 = Some (now e0)"
    "songs ?s1 = songs s" "song_index ?s1 = song_index s"
    using p0(1,2,4) by (simp_all add: put_all_fields put_block_fields)
  have t1: "temp_wav ?s1 =
              Some (w\<lparr>frames := frames w @ concat (map (pcm \<circ> snd) ((e0, b0) # mid))\<rparr>)"
    using put_all_temp [OF p0(3), of "map snd mid"] by simp
  have before: "record_loop ((e0, b0) # mid) s = Ok ?s1"
    using assms(1) first grace [of "[]"] by simp
  have last: "record_iter eN bN ?s1 = finalize_and_save eN ?s2"
    using p1(2) t1 assms(5,7) p1(3) by (simp add: iter_silence_expired)
  have whole: "record_loop ?all s = finalize_and_save eN ?s2"
  proof -
    have "record_loop ?all s = record_loop (mid @ [(eN, bN)]) ?s0"
      using assms(1) first by simp
    also have "\<dots> = record_loop [(eN, bN)] ?s1" by (rule grace)
    also have "\<dots> = finalize_and_save eN ?s2"
      using p1(1) last by (cases "finalize_and_save eN ?s2") simp_all
    finally show ?thesis .
  qed
  have s2: "?s2 = (put_all (map snd ?all) s)\<lparr>silence_start := Some (now e0)\<rparr>"
    by (simp add: put_all_append put_all_silence_upd put_block_silence_upd)
  let ?tb = "foldl (deque_append TAIL_MAXLEN) (tail_buffer s) (map (pcm \<circ> snd) ?all)"
  let ?w = "w\<lparr>frames := frames w @ concat (map (pcm \<circ> snd) ?all)\<rparr>"
  have form: "?s2 = s\<lparr>temp_wav := Some ?w, tail_buffer := ?tb,
                        silence_start := Some (now e0)\<rparr>"
  proof -
    have "put_all (map snd ?all) s =
            s\<lparr>temp_wav := temp_wav (put_all (map snd ?all) s),
              tail_buffer := tail_buffer (put_all (map snd ?all) s)\<rparr>"
      by (rule put_all_only)
    moreover have "temp_wav (put_all (map snd ?all) s) = Some ?w"
      using put_all_temp [OF assms(3), of "map snd ?all"] by simp
    moreover have "tail_buffer (put_all (map snd ?all) s) = ?tb"
      by (simp add: put_all_tail put_block_fields)
    ultimately have "put_all (map snd ?all) s = s\<lparr>temp_wav := Some ?w, tail_buffer := ?tb\<rparr>"
      by simp
    with s2 show ?thesis by simp
  qed
  have fin: "finalize_and_save eN ?s2 =
           Ok (reset_state
                (s\<lparr>songs := songs s @
                      [(save_path (song_index s) (stamp eN),
                        trim_and_save (s\<lparr>tail_buffer := ?tb\<rparr>) ?w)],
                    song_index := song_index s + 1\<rparr>))"
    using form assms(8,9) by (rule finalize_and_save_after)
  from before p1 t1 whole fin show ?thesis by simp
qed

theorem finalize_at_first_expired_block_witness:
  "running one_block_state \<and> has_started_song one_block_state \<and>
   temp_wav one_block_state = Some (plain_wav (replicate 8192 0)) \<and>
   silence_start one_block_state = None \<and>
   level quiet_block < SILENCE_RMS \<and> write_ok (at_time 1) \<and> write_ok (at_time 10) \<and>
   write_ok (at_time 21) \<and>
   now (at_time 10) - now (at_time 1) < SILENCE_TIME \<and>
   SILENCE_TIME \<le> now (at_time 21) - now (at_time 1) \<and> save_ok (at_time 21) \<and>
   start_time one_block_state = Some 0 \<and>
   (\<exists>s1. record_loop [(at_time 1, quiet_block), (at_time 10, quiet_block)] one_block_state =
            Ok s1 \<and>
         has_started_song s1 \<and> songs s1 = [] \<and> silence_start s1 = Some 1) \<and>
   record_loop [(at_time 1, quiet_block), (at_time 10, quiet_block),
                (at_time 21, quiet_block)] one_block_state =
     Ok (init_state\<lparr>running := True, readers := 1,
           songs := [(''songs/song_001_20240101_000000.wav'',
                      plain_wav (replicate 8192 0 @ replicate 8192 2 @ replicate 8192 2 @
                                 replicate 8192 2))],
           song_index := 2\<rparr>)"
proof -
  have h: "running one_block_state" "has_started_song one_block_state"
    "temp_wav one_block_state = Some (plain_wav (replicate 8192 0))"
    "silence_start one_block_state = None"
    by (simp_all add: one_block_state_def)
  have l: "level quiet_block < SILENCE_RMS" "write_ok (at_time 1)" "write_ok (at_time 10)"
    "write_ok (at_time 21)"
    by (simp_all add: SILENCE_RMS_def quiet_block_def at_time_def)
  have t: "now (at_time 10) - now (at_time 1) < SILENCE_TIME"
    "SILENCE_TIME \<le> now (at_time 21) - now (at_time 1)" "save_ok (at_time 21)"
    by (simp_all add: SILENCE_TIME_def at_time_def)
  have q1: "\<forall>x\<in>set ((at_time 1, quiet_block) # [(at_time 10, quiet_block)] @
                      [(at_time 21, quiet_block)]).
              level (snd x) < SILENCE_RMS \<and> write_ok (fst x)"
    using l by simp
  have q2: "\<forall>x\<in>set [(at_time 10, quiet_block)]. now (fst x) - now (at_time 1) < SILENCE_TIME"
    using t(1) by simp
  have st: "start_time one_block_state = Some 0" by (simp add: one_block_state_def)
  note inst = finalize_at_first_expired_block [OF h q1 q2 t(2,3) st]
  have tb: "foldl (deque_append TAIL_MAXLEN) (tail_buffer one_block_state)
              (map (pcm \<circ> snd) ((at_time 1, quiet_block) # [(at_time 10, quiet_block)] @
                      [(at_time 21, quiet_block)])) =
            [replicate 8192 0, replicate 8192 2, replicate 8192 2, replicate 8192 2]"
    by (simp add: one_block_state_def quiet_block_def deque_append_def TAIL_MAXLEN_eq)
  have tr: "trim_and_save
              (one_block_state\<lparr>tail_buffer :=
                 [replicate 8192 0, replicate 8192 2, replicate 8192 2, replicate 8192 2]\<rparr>)
              ((plain_wav (replicate 8192 0))\<lparr>frames :=
                 frames (plain_wav (replicate 8192 0)) @
                 concat (map (pcm \<circ> snd) ((at_time 1, quiet_block) #
                   [(at_time 10, quiet_block)] @ [(at_time 21, quiet_block)]))\<rparr>) =
            plain_wav (replicate 8192 0 @ replicate 8192 2 @ replicate 8192 2 @
                       replicate 8192 2)"
    by (simp add: trim_and_save_def trim_bytes_def BLOCK_def plain_wav_def
        quiet_block_def CHANNELS_def SAMPLE_RATE_def)
  have f: "songs one_block_state = []" "now (at_time 1) = 1"
    by (simp_all add: one_block_state_def at_time_def)
  from inst [THEN conjunct1] obtain s1 where
    "record_loop ((at_time 1, quiet_block) # [(at_time 10, quiet_block)]) one_block_state =
       Ok s1"
    "has_started_song s1" "songs s1 = songs one_block_state"
    "silence_start s1 = Some (now (at_time 1))"
    by blast
  with f have "record_loop [(at_time 1, quiet_block), (at_time 10, quiet_block)]
                 one_block_state = Ok s1 \<and>
         has_started_song s1 \<and> songs s1 = [] \<and> silence_start s1 = Some 1"
    by (simp del: record_loop.simps)
  then have a: "\<exists>s1. record_loop [(at_time 1, quiet_block), (at_time 10, quiet_block)]
                           one_block_state = Ok s1 \<and>
         has_started_song s1 \<and> songs s1 = [] \<and> silence_start s1 = Some 1"
    by (rule exI)
  from inst [THEN conjunct2] have "record_loop [(at_time 1, quiet_block), (at_time 10, quiet_block),
                (at_time 21, quiet_block)] one_block_state =
     Ok (reset_state
          (one_block_state\<lparr>songs := songs one_block_state @
              [(save_path (song_index one_block_state) (stamp (at_time 21)),
                plain_wav (replicate 8192 0 @ replicate 8192 2 @ replicate 8192 2 @
                           replicate 8192 2))],
            song_index := song_index one_block_state + 1\<rparr>))"
    unfolding tb tr by simp
  then have b: "record_loop [(at_time 1, quiet_block), (at_time 10, quiet_block),
                (at_time 21, quiet_block)] one_block_state =
     Ok (init_state\<lparr>running := True, readers := 1,
           songs := [(''songs/song_001_20240101_000000.wav'',
                      plain_wav (replicate 8192 0 @ replicate 8192 2 @ replicate 8192 2 @
                                 replicate 8192 2))],
           song_index := 2\<rparr>)"
    by (simp add: one_block_state_def init_state_def reset_state_def save_path_def
        SAVE_DIR_def fmt_03d_1 at_time_def del: record_loop.simps)
  from h l t st a b show ?thesis by (simp del: record_loop.simps)
qed

section \<open>Starting a segment\<close>

text \<open>
  C4. A block whose level is at least \<open>START_RMS\<close>, arriving while no segment is being
  recorded, starts a segment: the loop iteration opens a fresh temporary file, sets
  \<open>recording\<close> and \<open>has_started_song\<close>, clears the tail buffer, and then writes that block,
  so that it is the only content of the temporary file and the only entry of the tail
  buffer. (Opening and writing are taken to succeed.)
\<close>

theorem start_on_loud_block:
  assumes "\<not> recording s" and "START_RMS \<le> level b" and "open_ok e" and "write_ok e"
  shows "record_iter e b s =
           Ok (s\<lparr>recording := True, has_started_song := True, silence_start := None,
                 start_time := Some (now e),
                 temp_wav := Some \<lparr>nchannels = CHANNELS, sampwidth = 2,
                                    framerate = SAMPLE_RATE, frames = pcm b\<rparr>,
                 tail_buffer := [pcm b]\<rparr>)"
  using assms
  by (simp add: record_iter_def start_new_song_def write_block_def deque_append_single)

theorem start_on_loud_block_witness:
  "\<not> recording init_state \<and> START_RMS \<le> level loud_block \<and> open_ok (at_time 5) \<and>
   write_ok (at_time 5) \<and>
   record_iter (at_time 5) loud_block init_state =
     Ok (init_state\<lparr>recording := True, has_started_song := True, start_time := Some 5,
                     temp_wav := Some (plain_wav (replicate 8192 0)),
                     tail_buffer := [replicate 8192 0]\<rparr>)"
proof -
  have h1: "\<not> recording init_state" by (simp add: init_state_def)
  have h2: "START_RMS \<le> level loud_block" by (simp add: START_RMS_def loud_block_def)
  have h3: "open_ok (at_time 5)" "write_ok (at_time 5)" by (simp_all add: at_time_def)
  show ?thesis
    using h1 h2 h3 start_on_loud_block [OF h1 h2 h3]
    by (simp add: init_state_def loud_block_def at_time_def plain_wav_def CHANNELS_def
        SAMPLE_RATE_def)
qed

section \<open>A segment that does not go silent\<close>

text \<open>
  C5. While a segment is open and every block is at or above \<open>SILENCE_RMS\<close>, the loop
  never finalizes, however many blocks arrive: each block is appended to the temporary
  file, each clears \<open>silence_start\<close>, no file is saved, the counter keeps its value and
  the segment stays open. (Writing is taken to succeed.)
\<close>

theorem no_finalize_without_silence:
  assumes "running s" and "recording s" and "has_started_song s" and "temp_wav s = Some w"
    and "\<forall>x\<in>set bs. SILENCE_RMS \<le> level (snd x) \<and> write_ok (fst x)"
  shows "\<exists>s'. record_loop bs s = Ok s' \<and> running s' \<and> recording s' \<and>
              has_started_song s' \<and> songs s' = songs s \<and> song_index s' = song_index s \<and>
              temp_wav s' = Some (w\<lparr>frames := frames w @ concat (map (pcm \<circ> snd) bs)\<rparr>) \<and>
              (bs \<noteq> [] \<longrightarrow> silence_start s' = None)"
proof (cases "bs = []")
  case True
  with assms show ?thesis by simp
next
  case False
  let ?s' = "(put_all (map snd bs) s)\<lparr>silence_start := None\<rparr>"
  have "record_loop bs s = Ok ?s'"
    using loop_not_silent [OF assms] False by simp
  moreover have "temp_wav ?s' = Some (w\<lparr>frames := frames w @ concat (map (pcm \<circ> snd) bs)\<rparr>)"
    using put_all_temp [OF assms(4), of "map snd bs"] by simp
  ultimately show ?thesis using assms(1-3) by (simp add: put_all_fields)
qed

theorem no_finalize_without_silence_witness:
  "running one_block_state \<and> recording one_block_state \<and>
   has_started_song one_block_state \<and>
   temp_wav one_block_state = Some (plain_wav (replicate 8192 0)) \<and>
   SILENCE_RMS \<le> level hold_block \<and> write_ok (at_time 1) \<and>
   SILENCE_RMS \<le> level loud_block \<and> write_ok (at_time 2) \<and>
   (\<exists>s'. record_loop [(at_time 1, hold_block), (at_time 2, loud_block)] one_block_state =
            Ok s' \<and>
         running s' \<and> recording s' \<and> has_started_song s' \<and> songs s' = [] \<and>
         song_index s' = 1 \<and>
         temp_wav s' =
           Some (plain_wav (replicate 8192 0 @ replicate 8192 1 @ replicate 8192 0)) \<and>
         silence_start s' = None)"
proof -
  have h: "running one_block_state" "recording one_block_state"
    "has_started_song one_block_state"
    "temp_wav one_block_state = Some (plain_wav (replicate 8192 0))"
    by (simp_all add: one_block_state_def)
  have l: "SILENCE_RMS \<le> level hold_block" "write_ok (at_time 1)"
    "SILENCE_RMS \<le> level loud_block" "write_ok (at_time 2)"
    by (simp_all add: SILENCE_RMS_def hold_block_def loud_block_def at_time_def)
  then have q: "\<forall>x\<in>set [(at_time 1, hold_block), (at_time 2, loud_block)].
                 SILENCE_RMS \<le> level (snd x) \<and> write_ok (fst x)"
    by simp
  have f: "songs one_block_state = []" "song_index one_block_state = 1"
    by (simp_all add: one_block_state_def)
  have c: "(plain_wav (replicate 8192 0))
             \<lparr>frames := frames (plain_wav (replicate 8192 0)) @
                concat (map (pcm \<circ> snd) [(at_time 1, hold_block), (at_time 2, loud_block)])\<rparr>
           = plain_wav (replicate 8192 0 @ replicate 8192 1 @ replicate 8192 0)"
    by (simp add: plain_wav_def hold_block_def loud_block_def)
  from no_finalize_without_silence [OF h q] f c
  have "\<exists>s'. record_loop [(at_time 1, hold_block), (at_time 2, loud_block)] one_block_state =
            Ok s' \<and>
         running s' \<and> recording s' \<and> has_started_song s' \<and> songs s' = [] \<and>
         song_index s' = 1 \<and>
         temp_wav s' =
           Some (plain_wav (replicate 8192 0 @ replicate 8192 1 @ replicate 8192 0)) \<and>
         silence_start s' = None"
    by (simp del: record_loop.simps)
  with h l show ?thesis by blast
qed

section \<open>Stopping\<close>

lemma toggle_stop_finalizes:
  assumes "run evs init_state = Ok s" and "running s" and "has_started_song s"
    and "save_ok e"
  shows "\<exists>w. temp_wav s = Some w \<and>
           toggle e s = finalize_and_save e (s\<lparr>running := False\<rparr>) \<and>
           toggle e s =
             Ok (reset_state
                   (s\<lparr>running := False,
                       songs := songs s @
                         [(save_path (song_index s) (stamp e), trim_and_save s w)],
                       song_index := song_index s + 1\<rparr>))"
proof -
  have "seg_inv s" using seg_inv_run [OF seg_inv_init assms(1)] .
  with assms(3) obtain w t0 where w: "temp_wav s = Some w" and st: "start_time s = Some t0"
    by (auto simp: seg_inv_def)
  have t: "toggle e s = finalize_and_save e (s\<lparr>running := False\<rparr>)"
    using assms(2,3) by (simp add: toggle_def finalize_if_needed_def)
  have "finalize_and_save e (s\<lparr>running := False\<rparr>) =
          Ok (reset_state
                   (s\<lparr>running := False,
                       songs := songs s @
                         [(save_path (song_index s) (stamp e), trim_and_save s w)],
                       song_index := song_index s + 1\<rparr>))"
    using w st assms(4) by (simp add: finalize_and_save_def trim_and_save_running)
  with w t show ?thesis by simp
qed

text \<open>
  C6 does not hold of the code. The button, pressed while a segment is open, does
  finalize that segment once, with the rule of the silence expiry, and resets the
  state (\<open>toggle_stop_finalizes\<close>). But the loop tests \<open>running\<close> only before it waits for
  a block, so the block that is in flight at the stop is handled after the button has
  reset the state. In the execution below monitoring starts, one loud block is
  recorded, the button stops monitoring and saves the first file, and then the block in
  flight, a loud one, arrives: it opens a new segment, although \<open>running\<close> is cleared. The
  machine is recording, not idle, and the loop thread has left. When the button is
  pressed again, to start, \<open>_reset_state\<close> drops that segment: the only file saved is the
  first one.
\<close>

theorem stop_then_block_in_flight:
  "run [Toggle (at_time 0), Block (at_time 0) loud_block, Toggle (at_time 3),
        Block (at_time 4) loud_block] init_state =
     Ok \<lparr>running = False, song_index = 2, recording = True, has_started_song = True,
         silence_start = None, start_time = Some 4,
         temp_wav = Some (plain_wav (replicate 8192 0)),
         tail_buffer = [replicate 8192 0],
         songs = [(''songs/song_001_20240101_000000.wav'', plain_wav (replicate 8192 0))],
         readers = 0\<rparr> \<and>
   run [Toggle (at_time 0), Block (at_time 0) loud_block, Toggle (at_time 3),
        Block (at_time 4) loud_block, Toggle (at_time 9)] init_state =
     Ok \<lparr>running = True, song_index = 2, recording = False, has_started_song = False,
         silence_start = None, start_time = None, temp_wav = None, tail_buffer = [],
         songs = [(''songs/song_001_20240101_000000.wav'', plain_wav (replicate 8192 0))],
         readers = 1\<rparr>"
proof -
  let ?file = "(''songs/song_001_20240101_000000.wav'', plain_wav (replicate 8192 0))"
  let ?stopped = "init_state\<lparr>readers := 1, songs := [?file], song_index := 2\<rparr>"
  let ?reopened = "\<lparr>running = False, song_index = 2, recording = True,
         has_started_song = True, silence_start = None, start_time = Some 4,
         temp_wav = Some (plain_wav (replicate 8192 0)),
         tail_buffer = [replicate 8192 0], songs = [?file], readers = 0\<rparr>"
  have a: "run [Toggle (at_time 0), Block (at_time 0) loud_block, Toggle (at_time 3)]
             init_state = Ok ?stopped"
    by (rule run_one_song)
  have b: "step (Block (at_time 4) loud_block) ?stopped = Ok ?reopened"
    by (simp add: init_state_def record_iter_def at_time_def loud_block_def START_RMS_def
        start_new_song_def write_block_def deque_append_single plain_wav_def CHANNELS_def
        SAMPLE_RATE_def)
  have c: "step (Toggle (at_time 9)) ?reopened =
             Ok \<lparr>running = True, song_index = 2, recording = False,
                 has_started_song = False, silence_start = None, start_time = None,
                 temp_wav = None, tail_buffer = [], songs = [?file], readers = 1\<rparr>"
    by (simp add: toggle_def reset_state_def)
  have 1: "run ([Toggle (at_time 0), Block (at_time 0) loud_block, Toggle (at_time 3)] @
                [Block (at_time 4) loud_block]) init_state = Ok ?reopened"
    unfolding run_append a by (simp only: bind.simps run_single b)
  have 2: "run (([Toggle (at_time 0), Block (at_time 0) loud_block, Toggle (at_time 3)] @
                 [Block (at_time 4) loud_block]) @ [Toggle (at_time 9)]) init_state =
             Ok \<lparr>running = True, song_index = 2, recording = False,
                 has_started_song = False, silence_start = None, start_time = None,
                 temp_wav = None, tail_buffer = [], songs = [?file], readers = 1\<rparr>"
    unfolding run_append [of "_ @ _"] 1 by (simp only: bind.simps run_single c)
  from 1 2 show ?thesis by (simp del: run.simps)
qed

text \<open>
  C7. Pressing the button to stop while no segment is open only clears \<open>running\<close>:
  \<open>finalize_and_save\<close> is not called, so the saved files, the counter and every field of the
  recording state are unchanged.
\<close>

theorem stop_while_idle:
  assumes "running s" and "\<not> has_started_song s"
  shows "toggle e s = Ok (s\<lparr>running := False\<rparr>)"
  using assms by (simp add: toggle_def finalize_if_needed_def)

theorem stop_while_idle_witness:
  "running (init_state\<lparr>running := True\<rparr>) \<and>
   \<not> has_started_song (init_state\<lparr>running := True\<rparr>) \<and>
   toggle (at_time 1) (init_state\<lparr>running := True\<rparr>) = Ok init_state"
proof -
  have h: "running (init_state\<lparr>running := True\<rparr>)"
    "\<not> has_started_song (init_state\<lparr>running := True\<rparr>)"
    by (simp_all add: init_state_def)
  from stop_while_idle [OF h, of "at_time 1"] h show ?thesis
    by (simp add: init_state_def)
qed

section \<open>Output file names\<close>

text \<open>
  C8. In any execution from the initial state in which no call raised, the counter is
  one more than the number of files saved so far, and the \<open>i\<close>-th saved file (counting from 0) is named
  \<open>songs/song_<f"{i+1:03d}">_<timestamp>.wav\<close>: the numbers are 1, 2, ..., N in order, each
  used once. The field reads back as \<open>i + 1\<close> and is three characters wide up to 999
  (\<open>:03d\<close> is a minimum width). Executions contain any mix of blocks, segment ends, stops
  and restarts of monitoring; none of them resets the counter.
\<close>

theorem sequence_numbers:
  assumes "run evs init_state = Ok s"
  shows "song_index s = int (length (songs s)) + 1 \<and>
         (\<forall>i<length (songs s).
            (\<exists>st. fst (songs s ! i) =
                    ''songs/song_'' @ fmt_03d (int i + 1) @ ''_'' @ st @ ''.wav'') \<and>
            dec_val (fmt_03d (int i + 1)) = i + 1 \<and>
            (i + 1 < 1000 \<longrightarrow> length (fmt_03d (int i + 1)) = 3))"
proof -
  have inv: "seq_inv s" using seq_inv_run [OF seq_inv_init assms] .
  have a: "dec_val (fmt_03d (int i + 1)) = i + 1" for i
    using dec_val_fmt_03d [of "int i + 1"] by linarith
  have b: "i + 1 < 1000 \<Longrightarrow> length (fmt_03d (int i + 1)) = 3" for i
    using length_fmt_03d [of "int i + 1"] by simp
  from inv a b show ?thesis
    by (simp add: seq_inv_def save_path_def SAVE_DIR_def)
qed

theorem sequence_numbers_witness:
  "run [Toggle (at_time 0), Block (at_time 0) loud_block, Toggle (at_time 3)] init_state =
     Ok (init_state\<lparr>readers := 1, songs :=
            [(''songs/song_001_20240101_000000.wav'', plain_wav (replicate 8192 0))],
          song_index := 2\<rparr>) \<and>
   fmt_03d (int 0 + 1) = ''001'' \<and> dec_val ''001'' = 0 + 1 \<and> length ''001'' = 3"
proof -
  let ?s = "init_state\<lparr>readers := 1, songs :=
            [(''songs/song_001_20240101_000000.wav'', plain_wav (replicate 8192 0))],
          song_index := 2\<rparr>"
  have r: "run [Toggle (at_time 0), Block (at_time 0) loud_block, Toggle (at_time 3)]
             init_state = Ok ?s"
    by (rule run_one_song)
  have n: "songs ?s ! 0 =
             (''songs/song_001_20240101_000000.wav'', plain_wav (replicate 8192 0))"
    "length (songs ?s) = 1"
    by simp_all
  from sequence_numbers [OF r] n
  have "dec_val (fmt_03d (int 0 + 1)) = 0 + 1 \<and> length (fmt_03d (int 0 + 1)) = 3"
    by simp
  with r show ?thesis by (simp add: fmt_03d_1)
qed

section \<open>A failed write\<close>

text \<open>
  C9, as the code has it. The program catches no exception. When writing a block to the
  temporary file fails while a segment is open, the exception leaves \<open>record_loop\<close>: the
  loop ends at that block and handles no later one, and the object is left as it was
  before the block, still recording with the temporary file open; it is not reset, and
  no output file is written.
\<close>

theorem write_failure_ends_loop:
  assumes "running s" and "recording s" and "has_started_song s"
    and "temp_wav s = Some w" and "\<not> write_ok e"
  shows "record_iter e b s = Raise StorageError s \<and>
         record_loop ((e, b) # rest) s = Raise StorageError s"
proof -
  have w: "write_block e b s = Raise StorageError s"
    using assms(4,5) by (simp add: write_block_def)
  have "record_iter e b s = Raise StorageError s"
    using assms(2,3) w by (simp add: record_iter_def)
  with assms(1) show ?thesis by simp
qed

theorem write_failure_ends_loop_witness:
  "running one_block_state \<and> recording one_block_state \<and>
   has_started_song one_block_state \<and>
   temp_wav one_block_state = Some (plain_wav (replicate 8192 0)) \<and>
   \<not> write_ok ((at_time 1)\<lparr>write_ok := False\<rparr>) \<and>
   record_iter ((at_time 1)\<lparr>write_ok := False\<rparr>) quiet_block one_block_state =
     Raise StorageError one_block_state"
proof -
  have h: "running one_block_state" "recording one_block_state"
    "has_started_song one_block_state"
    "temp_wav one_block_state = Some (plain_wav (replicate 8192 0))"
    "\<not> write_ok ((at_time 1)\<lparr>write_ok := False\<rparr>)"
    by (simp_all add: one_block_state_def)
  from write_failure_ends_loop [OF h] h show ?thesis by simp
qed

theorem write_failure_counterexample:
  "record_loop [((at_time 1)\<lparr>write_ok := False\<rparr>, loud_block), (at_time 2, loud_block)]
     one_block_state = Raise StorageError one_block_state \<and>
   recording one_block_state \<and> has_started_song one_block_state \<and>
   running one_block_state"
  by (simp add: record_iter_def write_block_def one_block_state_def loud_block_def
      START_RMS_def)

section \<open>The tail buffer at finalize\<close>

text \<open>
  C10. \<open>finalize_and_save\<close> is called in two places: by the button (through
  \<open>finalize_if_needed\<close>, only when \<open>has_started_song\<close> is set, on the state as the last
  event left it), and by the loop, on the state that \<open>write_block\<close> has just returned.
  In any execution from the initial state in which no call raised, at both places the
  tail buffer holds at least one block, so \<open>trim_bytes\<close> is at least one block's bytes and never 0: the slice
  \<open>frames[:-0]\<close> is never taken.
\<close>

theorem tail_buffer_nonempty_at_finalize:
  assumes "run evs init_state = Ok s"
  shows "(has_started_song s \<longrightarrow>
            tail_buffer s \<noteq> [] \<and> BLOCK * CHANNELS * 2 \<le> trim_bytes s \<and>
            trim_bytes s \<noteq> 0) \<and>
         (\<forall>e b s1. write_block e b s = Ok s1 \<longrightarrow>
            tail_buffer s1 \<noteq> [] \<and> BLOCK * CHANNELS * 2 \<le> trim_bytes s1 \<and>
            trim_bytes s1 \<noteq> 0)"
proof -
  have nz: "tail_buffer t \<noteq> [] \<Longrightarrow> BLOCK * CHANNELS * 2 \<le> trim_bytes t \<and> trim_bytes t \<noteq> 0"
    for t using trim_bytes_pos [of t] by (simp add: block_bytes_eq)
  have inv: "seg_inv s" using seg_inv_run [OF seg_inv_init assms] .
  have 1: "has_started_song s \<longrightarrow> tail_buffer s \<noteq> []"
    using inv by (simp add: seg_inv_def)
  have 2: "write_block e b s = Ok s1 \<longrightarrow> tail_buffer s1 \<noteq> []" for e b s1
    by (auto simp: write_block_Ok_iff deque_append_nonempty)
  from 1 2 nz show ?thesis by blast
qed

theorem tail_buffer_nonempty_at_finalize_witness:
  "run [Toggle (at_time 0), Block (at_time 0) loud_block] init_state = Ok one_block_state \<and>
   has_started_song one_block_state \<and> tail_buffer one_block_state = [replicate 8192 0] \<and>
   trim_bytes one_block_state = 8192 \<and>
   write_block (at_time 1) quiet_block one_block_state =
     Ok (one_block_state
          \<lparr>temp_wav := Some (plain_wav (replicate 8192 0 @ replicate 8192 2)),
           tail_buffer := [replicate 8192 0, replicate 8192 2]\<rparr>) \<and>
   BLOCK * CHANNELS * 2 \<le>
     trim_bytes (one_block_state
          \<lparr>temp_wav := Some (plain_wav (replicate 8192 0 @ replicate 8192 2)),
           tail_buffer := [replicate 8192 0, replicate 8192 2]\<rparr>)"
proof -
  let ?s1 = "one_block_state
          \<lparr>temp_wav := Some (plain_wav (replicate 8192 0 @ replicate 8192 2)),
           tail_buffer := [replicate 8192 0, replicate 8192 2]\<rparr>"
  have h: "has_started_song one_block_state"
    "tail_buffer one_block_state = [replicate 8192 0]"
    by (simp_all add: one_block_state_def)
  have w: "write_block (at_time 1) quiet_block one_block_state = Ok ?s1"
    by (simp add: write_block_def one_block_state_def at_time_def quiet_block_def
        plain_wav_def deque_append_def TAIL_MAXLEN_eq)
  from tail_buffer_nonempty_at_finalize [OF run_one_block] w
  have "BLOCK * CHANNELS * 2 \<le> trim_bytes ?s1" by blast
  with run_one_block h w show ?thesis by (simp add: trim_bytes_one_block)
qed

end
